theory Spec2Isabelle
  imports Main "HOL-Library.Word" "HOL-Library.AList"
begin

section \<open>The peer exchange reactor of p2p/pex\_reactor.go\<close>

text \<open>
  The reactor talks to three collaborators whose code lives outside the file: the address
  book, the switch (connection manager) and the peer. Every call that the reactor makes
  on one of them and that has an effect is recorded, in program order, in a list of
  \<open>event\<close>s; every answer that the reactor reads from one of them comes from a record
  \<open>world\<close>. Logger calls change nothing and are left out. A Go panic is a value
  of its own, so that a function that panics does not look like one that returns.
\<close>

subsection \<open>Constants\<close>

type_synonym byte = "8 word"
type_synonym uint16 = "16 word"

definition PexChannel :: byte where
  "PexChannel = 0x00"

definition minNumOutboundPeers :: int where
  "minNumOutboundPeers = 10"

definition maxPexMessageSize :: nat where
  "maxPexMessageSize = 1048576"

definition defaultMaxMsgCountByPeer :: uint16 where
  "defaultMaxMsgCountByPeer = 1000"

definition msgTypeRequest :: byte where
  "msgTypeRequest = 0x01"

definition msgTypeAddrs :: byte where
  "msgTypeAddrs = 0x02"

subsection \<open>Data\<close>

type_synonym ID = string

text \<open>
  Modelled from the spec: the struct NetAddress is declared outside src; the spec gives it
  an identity (the peer ID) and a network location (host and port). The reactor reads
  only the ID.
\<close>

record NetAddress =
  ID :: ID
  Host :: string
  Port :: nat

text \<open>
  Modelled from the spec: the interface Peer is declared outside src; the reactor calls
  \<open>NodeInfo().NetAddress()\<close>, \<open>IsOutbound()\<close> and \<open>Send\<close> on it. The first two are
  fields here, a call of \<open>Send\<close> is an event.
\<close>

record Peer =
  NodeInfoNetAddress :: NetAddress
  IsOutbound :: bool

text \<open>
  The two message structs. An entry of \<open>Addrs\<close> is a pointer, \<open>None\<close> is the nil
  pointer.
\<close>

datatype PexMessage =
    pexRequestMessage
  | pexAddrsMessage "NetAddress option list"

datatype error = ErrAlreadyStarted | ErrOther string

datatype 'a outcome = Panics | Returns 'a

datatype completion = Returned | Panicked

datatype routine = ensurePeersRoutine | flushMsgCountByPeerRoutine

datatype event =
    SendCall Peer byte PexMessage
  | AddAddressCall NetAddress NetAddress
  | PickAddressCall int
  | GoDialPeerWithAddress NetAddress bool
  | DialPeersAsyncCall "string list" bool
  | BookStartCall
  | GoCall routine

text \<open>
  What the collaborators answer during one call of the reactor. \<open>ReadBinary\<close> is
  go-wire's decoder for the registered interface, applied to the bytes and the size
  limit: it gives the message (\<open>None\<close> is the nil interface) and the error it has set.
  \<open>PickAddress w i bias\<close> is the answer to the draw made in iteration \<open>i\<close> of the
  selection loop, \<open>IsDialing w i\<close> and \<open>PeersHas w i\<close> are the switch's answers in
  that iteration. \<open>NumPeers\<close> are counts, \<open>randInt\<close> is the non-negative value of
  \<open>rand.Int()\<close>. The counts are sizes of collections held in memory, far below the
  range of Go's int, so the sums and products of ensurePeers are computed in \<open>int\<close>
  without wrap-around. The counters of messages are uint16 and do wrap.
\<close>

record world =
  ReadBinary :: "byte list \<Rightarrow> nat \<Rightarrow> PexMessage option \<times> error option"
  GetSelection :: "NetAddress option list"
  NeedMoreAddrs :: bool
  PickAddress :: "nat \<Rightarrow> int \<Rightarrow> NetAddress option"
  NumPeers :: "nat \<times> nat \<times> nat"
  IsDialing :: "nat \<Rightarrow> ID \<Rightarrow> bool"
  PeersHas :: "nat \<Rightarrow> ID \<Rightarrow> bool"
  PeersList :: "Peer list"
  randInt :: nat
  BaseReactorOnStart :: "error option"
  bookStart :: "error option"

record PEXReactorConfig =
  Seeds :: "string list"

text \<open>
  Modelled from the spec: cmn.CMap is declared outside src; it is a mapping from strings
  to values where \<open>Get\<close> of an absent key is nil, \<open>Set\<close> stores and \<open>Clear\<close>
  empties it. The values the reactor stores are uint16 counters.
\<close>

record PEXReactor =
  config :: PEXReactorConfig
  msgCountByPeer :: "string \<Rightarrow> uint16 option"
  maxMsgCountByPeer :: uint16

subsection \<open>Construction and configuration\<close>

definition NewPEXReactor :: "PEXReactorConfig \<Rightarrow> PEXReactor" where
  "NewPEXReactor c =
     \<lparr>config = c, msgCountByPeer = Map.empty, maxMsgCountByPeer = defaultMaxMsgCountByPeer\<rparr>"


subsection \<open>OnStart\<close>

text \<open>
  The result is the returned error and the events: the start of the address book and
  the two goroutines.
\<close>

definition OnStart :: "world \<Rightarrow> PEXReactor \<Rightarrow> error option \<times> event list" where
  "OnStart w r =
     (case BaseReactorOnStart w of
        Some err \<Rightarrow> (Some err, [])
      | None \<Rightarrow>
          (let err = bookStart w in
           if err \<noteq> None \<and> err \<noteq> Some ErrAlreadyStarted then (err, [BookStartCall])
           else (None, [BookStartCall, GoCall ensurePeersRoutine,
                        GoCall flushMsgCountByPeerRoutine])))"

subsection \<open>Sending\<close>

definition RequestPEX :: "Peer \<Rightarrow> event list" where
  "RequestPEX p = [SendCall p PexChannel pexRequestMessage]"

definition SendAddrs :: "Peer \<Rightarrow> NetAddress option list \<Rightarrow> event list" where
  "SendAddrs p netAddrs = [SendCall p PexChannel (pexAddrsMessage netAddrs)]"

subsection \<open>AddPeer\<close>

definition AddPeer :: "world \<Rightarrow> PEXReactor \<Rightarrow> Peer \<Rightarrow> event list" where
  "AddPeer w r p =
     (if IsOutbound p then
        (if NeedMoreAddrs w then RequestPEX p else [])
      else
        (let addr = NodeInfoNetAddress p in [AddAddressCall addr addr]))"

subsection \<open>The message counters\<close>

definition ReachedMaxMsgCountForPeer :: "PEXReactor \<Rightarrow> ID \<Rightarrow> bool outcome" where
  "ReachedMaxMsgCountForPeer r peerID =
     (case msgCountByPeer r peerID of
        None \<Rightarrow> Panics
      | Some c \<Rightarrow> Returns (c \<ge> maxMsgCountByPeer r))"

definition IncrementMsgCountForPeer :: "PEXReactor \<Rightarrow> ID \<Rightarrow> PEXReactor" where
  "IncrementMsgCountForPeer r peerID =
     (let count = (case msgCountByPeer r peerID of None \<Rightarrow> 0 | Some c \<Rightarrow> c);
          count = count + 1
      in r\<lparr>msgCountByPeer := (msgCountByPeer r)(peerID \<mapsto> count)\<rparr>)"

text \<open>One tick of the flush loop.\<close>

definition flushMsgCountByPeer :: "PEXReactor \<Rightarrow> PEXReactor" where
  "flushMsgCountByPeer r = r\<lparr>msgCountByPeer := Map.empty\<rparr>"

subsection \<open>Decoding\<close>

text \<open>
  \<open>bz[0]\<close> is read before anything else, so the empty slice panics with an index out
  of range; otherwise the decoder's message and error are returned with the first byte.
\<close>

definition DecodeMessage ::
  "(byte list \<Rightarrow> nat \<Rightarrow> PexMessage option \<times> error option) \<Rightarrow> byte list
     \<Rightarrow> (byte \<times> PexMessage option \<times> error option) outcome" where
  "DecodeMessage readBinary bz =
     (case bz of
        [] \<Rightarrow> Panics
      | msgType # _ \<Rightarrow>
          (let (msg, err) = readBinary bz maxPexMessageSize in Returns (msgType, msg, err)))"

subsection \<open>Receive\<close>

fun addAddrs :: "NetAddress option list \<Rightarrow> NetAddress \<Rightarrow> event list" where
  "addAddrs [] srcAddr = []"
| "addAddrs (netAddr # rest) srcAddr =
     (case netAddr of
        Some a \<Rightarrow> AddAddressCall a srcAddr # addAddrs rest srcAddr
      | None \<Rightarrow> addAddrs rest srcAddr)"

definition Receive ::
  "world \<Rightarrow> PEXReactor \<Rightarrow> byte \<Rightarrow> Peer \<Rightarrow> byte list \<Rightarrow> completion \<times> PEXReactor \<times> event list" where
  "Receive w r chID src msgBytes =
     (let srcAddr = NodeInfoNetAddress src;
          r' = IncrementMsgCountForPeer r (ID srcAddr) in
      case ReachedMaxMsgCountForPeer r' (ID srcAddr) of
        Panics \<Rightarrow> (Panicked, r', [])
      | Returns True \<Rightarrow> (Returned, r', [])
      | Returns False \<Rightarrow>
          (case DecodeMessage (ReadBinary w) msgBytes of
             Panics \<Rightarrow> (Panicked, r', [])
           | Returns (_, msg, err) \<Rightarrow>
               if err \<noteq> None then (Returned, r', [])
               else
                 (case msg of
                    Some pexRequestMessage \<Rightarrow> (Returned, r', SendAddrs src (GetSelection w))
                  | Some (pexAddrsMessage addrs) \<Rightarrow> (Returned, r', addAddrs addrs srcAddr)
                  | None \<Rightarrow> (Returned, r', []))))"

subsection \<open>ensurePeers\<close>

text \<open>
  Modelled from the spec: cmn.MinInt is declared outside src; the spec reads
  \<open>cmn.MinInt(numOutPeers, 8)\<close> as the minimum of the two.
\<close>

definition MinInt :: "int \<Rightarrow> int \<Rightarrow> int" where
  "MinInt a b = (if a < b then a else b)"

text \<open>
  The selection loop. \<open>toDial\<close> is the Go map from IDs to addresses, kept as an
  association list with one pair for each key, so that \<open>len(toDial)\<close> is its length.
\<close>

function pickLoop ::
  "world \<Rightarrow> int \<Rightarrow> int \<Rightarrow> int \<Rightarrow> int \<Rightarrow> (ID \<times> NetAddress) list \<Rightarrow> event list
     \<Rightarrow> (ID \<times> NetAddress) list \<times> event list" where
  "pickLoop w newBias maxAttempts numToDial i toDial calls =
     (if i < maxAttempts \<and> int (length toDial) < numToDial then
        (let try = PickAddress w (nat i) newBias;
             calls' = calls @ [PickAddressCall newBias]
         in case try of
              None \<Rightarrow> pickLoop w newBias maxAttempts numToDial (i + 1) toDial calls'
            | Some a \<Rightarrow>
                if map_of toDial (ID a) \<noteq> None then
                  pickLoop w newBias maxAttempts numToDial (i + 1) toDial calls'
                else if IsDialing w (nat i) (ID a) then
                  pickLoop w newBias maxAttempts numToDial (i + 1) toDial calls'
                else if PeersHas w (nat i) (ID a) then
                  pickLoop w newBias maxAttempts numToDial (i + 1) toDial calls'
                else
                  pickLoop w newBias maxAttempts numToDial (i + 1)
                    (AList.update (ID a) a toDial) calls')
      else (toDial, calls))"
  by pat_completeness auto
termination
  by (relation "measure (\<lambda>(w, b, m, n, i, t, c). nat (m - i))") auto

declare pickLoop.simps [simp del]

text \<open>The bias of line 250.\<close>

definition newBias :: "int \<Rightarrow> int" where
  "newBias numOutPeers = MinInt numOutPeers 8 * 10 + 10"

text \<open>Lines 250 to 271: the bias, the empty map, the bound on the attempts and the loop.\<close>

definition selectToDial :: "world \<Rightarrow> int \<Rightarrow> int \<Rightarrow> (ID \<times> NetAddress) list \<times> event list" where
  "selectToDial w numOutPeers numToDial =
     (let bias = newBias numOutPeers;
          maxAttempts = numToDial * 3
      in pickLoop w bias maxAttempts numToDial 0 [] [])"

text \<open>
  One execution. The dials are started as goroutines, one for each entry of the map (Go
  ranges over a map in no fixed order; the list's order stands for one of them). A
  goroutine dials its address and marks the attempt in the address book when the dial
  fails; the event is the start of the goroutine.
\<close>

definition ensurePeers :: "world \<Rightarrow> PEXReactor \<Rightarrow> event list" where
  "ensurePeers w r =
     (let (numOut, numIn, numDial) = NumPeers w;
          numOutPeers = int numOut; numInPeers = int numIn; numDialing = int numDial;
          numToDial = minNumOutboundPeers - (numOutPeers + numDialing)
      in if numToDial \<le> 0 then []
         else
           (let (toDial, picks) = selectToDial w numOutPeers numToDial;
                dials = map (\<lambda>(_, item). GoDialPeerWithAddress item False) toDial;
                request =
                  (if NeedMoreAddrs w then
                     (let peers = PeersList w; peersCount = length peers
                      in if peersCount > 0 then RequestPEX (peers ! (randInt w mod peersCount))
                         else [])
                   else []);
                seeds =
                  (if numOutPeers + numInPeers + numDialing + int (length toDial) = 0 then
                     [DialPeersAsyncCall (Seeds (config r)) False]
                   else [])
            in picks @ dials @ request @ seeds))"

subsection \<open>The invariant of the selection loop\<close>

text \<open>
  \<open>pickedAt w b u p\<close>: the entry \<open>p\<close> of the map is keyed by its own ID and was the
  answer to one of the first \<open>u\<close> draws, at a moment when the switch reported its ID
  neither as dialing nor as connected.
\<close>

definition pickedAt :: "world \<Rightarrow> int \<Rightarrow> nat \<Rightarrow> ID \<times> NetAddress \<Rightarrow> bool" where
  "pickedAt w b u p \<longleftrightarrow>
     fst p = ID (snd p) \<and>
     (\<exists>j < u. PickAddress w j b = Some (snd p) \<and>
        \<not> IsDialing w j (fst p) \<and> \<not> PeersHas w j (fst p))"

definition pickInv ::
  "world \<Rightarrow> int \<Rightarrow> int \<Rightarrow> int \<Rightarrow> int \<Rightarrow> (ID \<times> NetAddress) list \<Rightarrow> event list \<Rightarrow> bool" where
  "pickInv w b m n i t c \<longleftrightarrow>
     0 \<le> i \<and> i \<le> m \<and> length c = nat i \<and> int (length t) \<le> n \<and> length t \<le> length c \<and>
     distinct (map fst t) \<and>
     (\<forall>p \<in> set t. pickedAt w b (nat i) p) \<and>
     (\<forall>e \<in> set c. e = PickAddressCall b)"

subsection \<open>Reading the events\<close>

fun isPickAddress :: "event \<Rightarrow> bool" where
  "isPickAddress (PickAddressCall b) = True"
| "isPickAddress e = False"

fun isDial :: "event \<Rightarrow> bool" where
  "isDial (GoDialPeerWithAddress a p) = True"
| "isDial e = False"

fun isDialPeersAsync :: "event \<Rightarrow> bool" where
  "isDialPeersAsync (DialPeersAsyncCall s p) = True"
| "isDialPeersAsync e = False"

fun isGo :: "event \<Rightarrow> bool" where
  "isGo (GoCall g) = True"
| "isGo e = False"

text \<open>The count a peer has in the window: an absent entry counts as zero.\<close>

definition msgCount :: "PEXReactor \<Rightarrow> ID \<Rightarrow> uint16" where
  "msgCount r peerID = (case msgCountByPeer r peerID of None \<Rightarrow> 0 | Some c \<Rightarrow> c)"

text \<open>The same message of the same peer, received \<open>n\<close> times in a row.\<close>

fun receiveTimes :: "nat \<Rightarrow> world \<Rightarrow> PEXReactor \<Rightarrow> Peer \<Rightarrow> byte list \<Rightarrow> PEXReactor" where
  "receiveTimes 0 w r src msgBytes = r"
| "receiveTimes (Suc n) w r src msgBytes =
     receiveTimes n w (fst (snd (Receive w r PexChannel src msgBytes))) src msgBytes"

subsection \<open>Concrete values for evaluating the model\<close>

definition addrA :: NetAddress where
  "addrA = \<lparr>ID = ''aa'', Host = ''10.0.0.1'', Port = 46656\<rparr>"

definition addrB :: NetAddress where
  "addrB = \<lparr>ID = ''bb'', Host = ''10.0.0.2'', Port = 46656\<rparr>"

definition addrS :: NetAddress where
  "addrS = \<lparr>ID = ''cc'', Host = ''10.0.0.3'', Port = 46656\<rparr>"

definition inPeer :: Peer where
  "inPeer = \<lparr>NodeInfoNetAddress = addrS, IsOutbound = False\<rparr>"

definition outPeer :: Peer where
  "outPeer = \<lparr>NodeInfoNetAddress = addrA, IsOutbound = True\<rparr>"

text \<open>
  A decoder that knows three inputs: the request, one list of addresses with a nil
  entry, and anything else, which is an error.
\<close>

definition testDecoder :: "byte list \<Rightarrow> nat \<Rightarrow> PexMessage option \<times> error option" where
  "testDecoder bz lmt =
     (if bz = [0x01] then (Some pexRequestMessage, None)
      else if bz = [0x02, 0x03] then (Some (pexAddrsMessage [Some addrA, None, Some addrB]), None)
      else (None, Some (ErrOther ''decode'')))"

definition testWorld :: world where
  "testWorld =
     \<lparr>ReadBinary = testDecoder, GetSelection = [Some addrB], NeedMoreAddrs = True,
      PickAddress = (\<lambda>i bias. if i = 1 then Some addrB else Some addrA),
      NumPeers = (8, 1, 0),
      IsDialing = (\<lambda>i k. False), PeersHas = (\<lambda>i k. k = ''aa''),
      PeersList = [outPeer, inPeer], randInt = 5,
      BaseReactorOnStart = None, bookStart = None\<rparr>"

definition testReactor :: PEXReactor where
  "testReactor = NewPEXReactor \<lparr>Seeds = [''seed1:46656'', ''seed2:46656'']\<rparr>"

text \<open>A node that knows nobody: no peers, no dials, and an address book with nothing to pick.\<close>

definition isolatedWorld :: world where
  "isolatedWorld =
     \<lparr>ReadBinary = testDecoder, GetSelection = [], NeedMoreAddrs = True,
      PickAddress = (\<lambda>i bias. None),
      NumPeers = (0, 0, 0),
      IsDialing = (\<lambda>i k. False), PeersHas = (\<lambda>i k. False),
      PeersList = [], randInt = 5,
      BaseReactorOnStart = None, bookStart = Some ErrAlreadyStarted\<rparr>"


section \<open>Lemmas\<close>

subsection \<open>The selection loop keeps its invariant\<close>

lemma pickedAt_mono: "pickedAt w b u p \<Longrightarrow> u \<le> v \<Longrightarrow> pickedAt w b v p"
  unfolding pickedAt_def by (meson less_le_trans)

lemma pickInv_reject:
  assumes "pickInv w b m n i t c" "i < m"
  shows "pickInv w b m n (i + 1) t (c @ [PickAddressCall b])"
proof -
  have "nat (i + 1) = Suc (nat i)" using assms by (simp add: pickInv_def nat_add_distrib)
  moreover have "\<And>p. pickedAt w b (nat i) p \<Longrightarrow> pickedAt w b (Suc (nat i)) p"
    by (erule pickedAt_mono) simp
  ultimately show ?thesis using assms unfolding pickInv_def
    by auto
qed

lemma pickInv_accept:
  assumes "pickInv w b m n i t c" "i < m" "int (length t) < n"
    and "PickAddress w (nat i) b = Some a" "map_of t (ID a) = None"
    and "\<not> IsDialing w (nat i) (ID a)" "\<not> PeersHas w (nat i) (ID a)"
  shows "pickInv w b m n (i + 1) (AList.update (ID a) a t) (c @ [PickAddressCall b])"
proof -
  have n1: "nat (i + 1) = Suc (nat i)" using assms by (simp add: pickInv_def nat_add_distrib)
  have notin: "ID a \<notin> fst ` set t" using assms(5) by (simp add: map_of_eq_None_iff)
  then have upd: "AList.update (ID a) a t = t @ [(ID a, a)]"
    by (induction t) auto
  have d: "distinct (map fst (t @ [(ID a, a)]))" using assms(1) notin by (simp add: pickInv_def)
  have "\<And>p. pickedAt w b (nat i) p \<Longrightarrow> pickedAt w b (Suc (nat i)) p"
    by (erule pickedAt_mono) simp
  then have old: "\<forall>p \<in> set t. pickedAt w b (Suc (nat i)) p"
    using assms(1) unfolding pickInv_def by blast
  have new: "pickedAt w b (Suc (nat i)) (ID a, a)"
    unfolding pickedAt_def using assms(4,6,7) by auto
  show ?thesis unfolding pickInv_def upd n1
    using assms(1-3) d old new by (auto simp: pickInv_def)
qed

lemma pickLoop_post:
  "pickInv w b m n i t c \<Longrightarrow>
     \<exists>i'. pickInv w b m n i' (fst (pickLoop w b m n i t c)) (snd (pickLoop w b m n i t c)) \<and>
          \<not> (i' < m \<and> int (length (fst (pickLoop w b m n i t c))) < n)"
proof (induction w b m n i t c rule: pickLoop.induct)
  case (1 w b m n i t c)
  show ?case
  proof (cases "i < m \<and> int (length t) < n")
    case False
    then have "pickLoop w b m n i t c = (t, c)" by (subst pickLoop.simps) auto
    then show ?thesis using "1.prems" False by auto
  next
    case True
    note rej = pickInv_reject [OF "1.prems", of ] 
    show ?thesis
    proof (cases "PickAddress w (nat i) b")
      case None
      then have eq: "pickLoop w b m n i t c = pickLoop w b m n (i + 1) t (c @ [PickAddressCall b])"
        using True by (subst pickLoop.simps) simp
      show ?thesis unfolding eq
        using "1.IH"(1) [OF True refl refl None] rej True by simp
    next
      case (Some a)
      show ?thesis
      proof (cases "map_of t (ID a) \<noteq> None")
        case sel: True
        then have eq: "pickLoop w b m n i t c = pickLoop w b m n (i + 1) t (c @ [PickAddressCall b])"
          using True Some by (subst pickLoop.simps) simp
        show ?thesis unfolding eq
          using "1.IH"(2) [OF True refl refl Some sel] rej True by simp
      next
        case nsel: False
        show ?thesis
        proof (cases "IsDialing w (nat i) (ID a)")
          case dl: True
          then have eq: "pickLoop w b m n i t c = pickLoop w b m n (i + 1) t (c @ [PickAddressCall b])"
            using True Some nsel by (subst pickLoop.simps) simp
          show ?thesis unfolding eq
            using "1.IH"(3) [OF True refl refl Some nsel dl] rej True by simp
        next
          case ndl: False
          show ?thesis
          proof (cases "PeersHas w (nat i) (ID a)")
            case has: True
            then have eq: "pickLoop w b m n i t c = pickLoop w b m n (i + 1) t (c @ [PickAddressCall b])"
              using True Some nsel ndl by (subst pickLoop.simps) simp
            show ?thesis unfolding eq
              using "1.IH"(4) [OF True refl refl Some nsel ndl has] rej True by simp
          next
            case nhas: False
            then have eq: "pickLoop w b m n i t c =
                pickLoop w b m n (i + 1) (AList.update (ID a) a t) (c @ [PickAddressCall b])"
              using True Some nsel ndl by (subst pickLoop.simps) simp
            have acc: "pickInv w b m n (i + 1) (AList.update (ID a) a t) (c @ [PickAddressCall b])"
              using pickInv_accept [OF "1.prems" _ _ Some _ ndl nhas] True nsel by simp
            show ?thesis unfolding eq
              using "1.IH"(5) [OF True refl refl Some nsel ndl nhas] acc by simp
          qed
        qed
      qed
    qed
  qed
qed

lemma pickInv_init: "0 \<le> m \<Longrightarrow> 0 \<le> n \<Longrightarrow> pickInv w b m n 0 [] []"
  by (simp add: pickInv_def)

lemma selectToDial_post:
  assumes "0 < d" and "selectToDial w numOutPeers d = (toDial, picks)"
  shows "\<exists>i'. pickInv w (newBias numOutPeers) (d * 3) d i' toDial picks \<and>
              \<not> (i' < d * 3 \<and> int (length toDial) < d)"
proof -
  have "pickInv w (newBias numOutPeers) (d * 3) d 0 [] []"
    using assms(1) by (intro pickInv_init) simp_all
  from pickLoop_post [OF this] assms(2) show ?thesis
    by (simp add: selectToDial_def)
qed

lemma selectToDial_props:
  assumes "0 < d" and "selectToDial w numOutPeers d = (toDial, picks)"
  shows "int (length picks) \<le> 3 * d"
    and "int (length toDial) \<le> d"
    and "length toDial \<le> length picks"
    and "distinct (map fst toDial)"
    and "\<forall>p \<in> set toDial. pickedAt w (newBias numOutPeers) (length picks) p"
    and "\<forall>e \<in> set picks. e = PickAddressCall (newBias numOutPeers)"
    and "int (length picks) = 3 * d \<or> int (length toDial) = d"
    and "picks \<noteq> []"
proof -
  from selectToDial_post [OF assms] obtain i' where
    inv: "pickInv w (newBias numOutPeers) (d * 3) d i' toDial picks" and
    stop: "\<not> (i' < d * 3 \<and> int (length toDial) < d)" by blast
  have len: "int (length picks) = i'" using inv by (simp add: pickInv_def)
  show "int (length picks) \<le> 3 * d" using inv len by (simp add: pickInv_def)
  show "int (length toDial) \<le> d" using inv by (simp add: pickInv_def)
  show le: "length toDial \<le> length picks" using inv by (simp add: pickInv_def)
  show "distinct (map fst toDial)" using inv by (simp add: pickInv_def)
  show "\<forall>p \<in> set toDial. pickedAt w (newBias numOutPeers) (length picks) p"
    using inv by (simp add: pickInv_def)
  show "\<forall>e \<in> set picks. e = PickAddressCall (newBias numOutPeers)"
    using inv by (simp add: pickInv_def)
  show stop': "int (length picks) = 3 * d \<or> int (length toDial) = d"
    using inv stop len by (auto simp: pickInv_def)
  show "picks \<noteq> []" using stop' le assms(1) by auto
qed

lemma ensurePeers_events:
  assumes "NumPeers w = (out, inb, dl)"
    and "0 < minNumOutboundPeers - (int out + int dl)"
    and "selectToDial w (int out) (minNumOutboundPeers - (int out + int dl)) = (toDial, picks)"
  shows "ensurePeers w r =
           picks @ map (\<lambda>(_, item). GoDialPeerWithAddress item False) toDial @
           (if NeedMoreAddrs w \<and> PeersList w \<noteq> []
            then RequestPEX (PeersList w ! (randInt w mod length (PeersList w))) else []) @
           (if out = 0 \<and> inb = 0 \<and> dl = 0 \<and> toDial = []
            then [DialPeersAsyncCall (Seeds (config r)) False] else [])"
proof -
  have "int out + int inb + int dl + int (length toDial) = int (out + inb + dl + length toDial)"
    by simp
  then have z: "(int out + int inb + int dl + int (length toDial) = 0) =
      (out = 0 \<and> inb = 0 \<and> dl = 0 \<and> toDial = [])"
    by (simp only: of_nat_eq_0_iff) simp
  show ?thesis using assms by (simp add: ensurePeers_def Let_def z)
qed


subsection \<open>The events of one execution of ensurePeers\<close>

lemma filter_picks:
  assumes "\<forall>e \<in> set picks. e = PickAddressCall b"
  shows "filter isPickAddress picks = picks"
    and "filter isDial picks = []"
    and "filter isDialPeersAsync picks = []"
  using assms by (induction picks) auto

lemma filter_dials:
  "filter isPickAddress (map (\<lambda>(k, item). GoDialPeerWithAddress item False) toDial) = []"
  "filter isDial (map (\<lambda>(k, item). GoDialPeerWithAddress item False) toDial) =
     map (\<lambda>(k, item). GoDialPeerWithAddress item False) toDial"
  "filter isDialPeersAsync (map (\<lambda>(k, item). GoDialPeerWithAddress item False) toDial) = []"
  by (induction toDial) auto

lemma ensurePeers_enough:
  assumes "NumPeers w = (out, inb, dl)" and "minNumOutboundPeers - (int out + int dl) \<le> 0"
  shows "ensurePeers w r = []"
  using assms by (simp add: ensurePeers_def)

lemma ensurePeers_picks:
  assumes "NumPeers w = (out, inb, dl)"
    and "0 < minNumOutboundPeers - (int out + int dl)"
    and "selectToDial w (int out) (minNumOutboundPeers - (int out + int dl)) = (toDial, picks)"
  shows "filter isPickAddress (ensurePeers w r) = picks"
    and "filter isDial (ensurePeers w r) =
           map (\<lambda>(k, item). GoDialPeerWithAddress item False) toDial"
    and "filter isDialPeersAsync (ensurePeers w r) =
           (if out = 0 \<and> inb = 0 \<and> dl = 0 \<and> toDial = []
            then [DialPeersAsyncCall (Seeds (config r)) False] else [])"
proof -
  note all = selectToDial_props(6) [OF assms(2,3)]
  note ev = ensurePeers_events [OF assms, of r]
  show "filter isPickAddress (ensurePeers w r) = picks"
    unfolding ev by (simp add: filter_picks [OF all] filter_dials RequestPEX_def)
  show "filter isDial (ensurePeers w r) =
           map (\<lambda>(k, item). GoDialPeerWithAddress item False) toDial"
    unfolding ev by (simp add: filter_picks [OF all] filter_dials RequestPEX_def)
  show "filter isDialPeersAsync (ensurePeers w r) =
           (if out = 0 \<and> inb = 0 \<and> dl = 0 \<and> toDial = []
            then [DialPeersAsyncCall (Seeds (config r)) False] else [])"
    unfolding ev by (simp add: filter_picks [OF all] filter_dials RequestPEX_def)
qed

subsection \<open>The bias\<close>

lemma newBias_min: "newBias n = min n 8 * 10 + 10"
  by (simp add: newBias_def MinInt_def min_def)

lemma newBias_mono: "m \<le> n \<Longrightarrow> newBias m \<le> newBias n"
  by (simp add: newBias_min min_def)

subsection \<open>Receive\<close>

lemma Receive_state:
  "fst (snd (Receive w r ch src bz)) = IncrementMsgCountForPeer r (ID (NodeInfoNetAddress src))"
  by (simp add: Receive_def Let_def
      split: outcome.splits bool.splits prod.splits option.splits PexMessage.splits)

lemma msgCount_Increment:
  "msgCount (IncrementMsgCountForPeer r k) k' = (if k' = k then msgCount r k + 1 else msgCount r k')"
  by (simp add: msgCount_def IncrementMsgCountForPeer_def Let_def)

lemma maxMsgCount_Increment:
  "maxMsgCountByPeer (IncrementMsgCountForPeer r k) = maxMsgCountByPeer r"
  by (simp add: IncrementMsgCountForPeer_def Let_def)

lemma Reached_Increment:
  "ReachedMaxMsgCountForPeer (IncrementMsgCountForPeer r k) k =
     Returns (maxMsgCountByPeer r \<le> msgCount r k + 1)"
  by (simp add: ReachedMaxMsgCountForPeer_def msgCount_def IncrementMsgCountForPeer_def Let_def)

text \<open>A message that finds the count at the maximum after the increment has no effect.\<close>

lemma Receive_dropped:
  "maxMsgCountByPeer r \<le> msgCount r (ID (NodeInfoNetAddress src)) + 1 \<Longrightarrow>
     Receive w r ch src bz = (Returned, IncrementMsgCountForPeer r (ID (NodeInfoNetAddress src)), [])"
  by (simp add: Receive_def Let_def Reached_Increment)

text \<open>A message that finds the count below the maximum after the increment is decoded and dispatched.\<close>

lemma Receive_accepted:
  "msgCount r (ID (NodeInfoNetAddress src)) + 1 < maxMsgCountByPeer r \<Longrightarrow>
     Receive w r ch src bz =
       (case DecodeMessage (ReadBinary w) bz of
          Panics \<Rightarrow> (Panicked, IncrementMsgCountForPeer r (ID (NodeInfoNetAddress src)), [])
        | Returns (t, msg, err) \<Rightarrow>
            (Returned, IncrementMsgCountForPeer r (ID (NodeInfoNetAddress src)),
             if err \<noteq> None then []
             else (case msg of
                     None \<Rightarrow> []
                   | Some pexRequestMessage \<Rightarrow> SendAddrs src (GetSelection w)
                   | Some (pexAddrsMessage addrs) \<Rightarrow> addAddrs addrs (NodeInfoNetAddress src))))"
proof -
  assume "msgCount r (ID (NodeInfoNetAddress src)) + 1 < maxMsgCountByPeer r"
  then have nr: "\<not> maxMsgCountByPeer r \<le> msgCount r (ID (NodeInfoNetAddress src)) + 1"
    by (simp add: not_le)
  show ?thesis
    by (simp add: Receive_def Let_def Reached_Increment nr
        split: outcome.splits prod.splits option.splits PexMessage.splits)
qed

lemma receiveTimes_msgCount:
  "msgCount (receiveTimes n w r src bz) (ID (NodeInfoNetAddress src)) =
     msgCount r (ID (NodeInfoNetAddress src)) + of_nat n"
  by (induction n arbitrary: r) (simp_all add: Receive_state msgCount_Increment)

lemma receiveTimes_max:
  "maxMsgCountByPeer (receiveTimes n w r src bz) = maxMsgCountByPeer r"
  by (induction n arbitrary: r) (simp_all add: Receive_state maxMsgCount_Increment)

lemma addAddrs_filter:
  "addAddrs addrs s = map (\<lambda>a. AddAddressCall a s) (map the (filter (\<lambda>x. x \<noteq> None) addrs))"
  by (induction addrs) (auto split: option.splits)


section \<open>The claims\<close>


text \<open>
  C2. The claim: DecodeMessage returns an error on the empty input and never panics.
  The code reads \<open>bz[0]\<close> first, so the empty input panics, whatever the decoder would
  do, and Receive, which has no recover, panics with it after it has counted the message.
\<close>

theorem DecodeMessage_empty_panics:
  "DecodeMessage readBinary [] = Panics \<and>
   Receive testWorld testReactor PexChannel inPeer [] =
     (Panicked, IncrementMsgCountForPeer testReactor ''cc'', [])"
  by (simp add: Receive_def Let_def ReachedMaxMsgCountForPeer_def IncrementMsgCountForPeer_def
        testReactor_def NewPEXReactor_def inPeer_def addrS_def defaultMaxMsgCountByPeer_def
        DecodeMessage_def word_le_nat_alt)

text \<open>
  C3. When the sender is below its limit and the bytes decode to an address message,
  Receive calls AddAddress for the entries that are not nil, in their order and with the
  sender's address as the source, and makes no other call: for the message
  \<open>[A, nil, B]\<close> these are the call for \<open>A\<close> and the call for \<open>B\<close>.
\<close>

theorem Receive_addrs_skips_nil:
  assumes "msgCount r (ID (NodeInfoNetAddress src)) + 1 < maxMsgCountByPeer r"
    and "DecodeMessage (ReadBinary w) msgBytes = Returns (t, Some (pexAddrsMessage addrs), None)"
  shows "Receive w r chID src msgBytes =
           (Returned, IncrementMsgCountForPeer r (ID (NodeInfoNetAddress src)),
            map (\<lambda>a. AddAddressCall a (NodeInfoNetAddress src))
              (map the (filter (\<lambda>x. x \<noteq> None) addrs))) \<and>
         (addrs = [Some A, None, Some B] \<longrightarrow>
            snd (snd (Receive w r chID src msgBytes)) =
              [AddAddressCall A (NodeInfoNetAddress src),
               AddAddressCall B (NodeInfoNetAddress src)])"
  using assms by (simp add: Receive_accepted addAddrs_filter)

theorem Receive_addrs_skips_nil_witness:
  "msgCount testReactor (ID (NodeInfoNetAddress inPeer)) + 1 < maxMsgCountByPeer testReactor \<and>
   DecodeMessage (ReadBinary testWorld) [0x02, 0x03] =
     Returns (0x02, Some (pexAddrsMessage [Some addrA, None, Some addrB]), None) \<and>
   snd (snd (Receive testWorld testReactor PexChannel inPeer [0x02, 0x03])) =
     [AddAddressCall addrA addrS, AddAddressCall addrB addrS]"
proof -
  have h1: "msgCount testReactor (ID (NodeInfoNetAddress inPeer)) + 1
              < maxMsgCountByPeer testReactor"
    by (simp add: testReactor_def NewPEXReactor_def msgCount_def defaultMaxMsgCountByPeer_def)
  have h2: "DecodeMessage (ReadBinary testWorld) [0x02, 0x03] =
     Returns (0x02, Some (pexAddrsMessage [Some addrA, None, Some addrB]), None)"
    by (simp add: DecodeMessage_def testWorld_def testDecoder_def)
  show ?thesis
    using Receive_addrs_skips_nil [OF h1 h2, of PexChannel addrA addrB] h1 h2
    by (simp add: inPeer_def)
qed

text \<open>
  C4. For a count \<open>n\<close> of outbound peers the bias is \<open>min n 8 * 10 + 10\<close>: it is 10
  at 0, 90 at 8 and at 12, it lies between 10 and 90 and it does not decrease when \<open>n\<close>
  grows. It is the bias of ensurePeers: every draw of an execution carries it, and an
  execution with a deficit makes at least one draw.
\<close>

theorem ensurePeers_bias:
  "newBias (int n) = min (int n) 8 * 10 + 10 \<and>
   newBias 0 = 10 \<and> newBias 8 = 90 \<and> newBias 12 = 90 \<and>
   10 \<le> newBias (int n) \<and> newBias (int n) \<le> 90 \<and>
   (m \<le> n \<longrightarrow> newBias (int m) \<le> newBias (int n)) \<and>
   (NumPeers w = (n, inb, dl) \<longrightarrow>
      (\<forall>b. PickAddressCall b \<in> set (ensurePeers w r) \<longrightarrow> b = newBias (int n)) \<and>
      (n + dl < 10 \<longrightarrow> PickAddressCall (newBias (int n)) \<in> set (ensurePeers w r)))"
proof -
  have draws: "NumPeers w = (n, inb, dl) \<longrightarrow>
      (\<forall>b. PickAddressCall b \<in> set (ensurePeers w r) \<longrightarrow> b = newBias (int n)) \<and>
      (n + dl < 10 \<longrightarrow> PickAddressCall (newBias (int n)) \<in> set (ensurePeers w r))"
  proof
    assume np: "NumPeers w = (n, inb, dl)"
    show "(\<forall>b. PickAddressCall b \<in> set (ensurePeers w r) \<longrightarrow> b = newBias (int n)) \<and>
      (n + dl < 10 \<longrightarrow> PickAddressCall (newBias (int n)) \<in> set (ensurePeers w r))"
    proof (cases "0 < minNumOutboundPeers - (int n + int dl)")
      case False
      then have "ensurePeers w r = []" using ensurePeers_enough [OF np] by simp
      moreover have "\<not> n + dl < 10" using False by (simp add: minNumOutboundPeers_def)
      ultimately show ?thesis by simp
    next
      case True
      obtain toDial picks where
        sel: "selectToDial w (int n) (minNumOutboundPeers - (int n + int dl)) = (toDial, picks)"
        by (cases "selectToDial w (int n) (minNumOutboundPeers - (int n + int dl))")
      have all: "\<forall>e \<in> set picks. e = PickAddressCall (newBias (int n))"
        by (rule selectToDial_props(6) [OF True sel])
      have ne: "picks \<noteq> []" by (rule selectToDial_props(8) [OF True sel])
      have f: "filter isPickAddress (ensurePeers w r) = picks"
        by (rule ensurePeers_picks(1) [OF np True sel])
      have s: "set picks = {e \<in> set (ensurePeers w r). isPickAddress e}"
        using f by (metis set_filter)
      have a: "\<forall>b. PickAddressCall b \<in> set (ensurePeers w r) \<longrightarrow> b = newBias (int n)"
      proof (intro allI impI)
        fix b assume "PickAddressCall b \<in> set (ensurePeers w r)"
        then have "PickAddressCall b \<in> set picks" by (simp add: s)
        with all have "PickAddressCall b = PickAddressCall (newBias (int n))" by (rule bspec)
        then show "b = newBias (int n)" by simp
      qed
      from ne obtain e where e: "e \<in> set picks" by (cases picks) auto
      with all have "e = PickAddressCall (newBias (int n))" by (rule bspec)
      with e have "PickAddressCall (newBias (int n)) \<in> set picks" by simp
      then have "PickAddressCall (newBias (int n)) \<in> set (ensurePeers w r)"
        by (simp add: s)
      with a show ?thesis by (intro conjI impI) assumption+
    qed
  qed
  have f1: "newBias (int n) = min (int n) 8 * 10 + 10" by (rule newBias_min)
  have f2: "newBias 0 = 10" by (simp add: newBias_min)
  have f3: "newBias 8 = 90" by (simp add: newBias_min)
  have f4: "newBias 12 = 90" by (simp add: newBias_min)
  have f5: "10 \<le> newBias (int n)" by (simp add: newBias_min min_def)
  have f6: "newBias (int n) \<le> 90" by (simp add: newBias_min min_def)
  have f7: "m \<le> n \<longrightarrow> newBias (int m) \<le> newBias (int n)" by (simp add: newBias_mono)
  show ?thesis using f1 f2 f3 f4 f5 f6 f7 draws by (intro conjI) assumption+
qed

theorem ensurePeers_bias_witness:
  "(3::nat) \<le> 8 \<and> NumPeers testWorld = (8, 1, 0) \<and> (8::nat) + 0 < 10 \<and>
   newBias 3 \<le> newBias 8 \<and>
   PickAddressCall 90 \<in> set (ensurePeers testWorld testReactor)"
proof -
  have h: "NumPeers testWorld = (8, 1, 0)" by (simp add: testWorld_def)
  have v: "newBias 8 = 90" by (simp add: newBias_min)
  show ?thesis
    using ensurePeers_bias [of 8 3 testWorld 1 0 testReactor] h by (simp add: v)
qed

text \<open>
  C5. When the outbound peers and the dials in progress are ten or more, one execution of
  ensurePeers does nothing: no draw, no dial, no request, no dial of the seeds.
\<close>

theorem ensurePeers_enough_peers:
  assumes "NumPeers w = (out, inb, dl)" and "10 \<le> out + dl"
  shows "ensurePeers w r = []"
  using assms by (simp add: ensurePeers_def minNumOutboundPeers_def)

theorem ensurePeers_enough_peers_witness:
  "NumPeers (testWorld\<lparr>NumPeers := (7, 2, 3)\<rparr>) = (7, 2, 3) \<and> (10::nat) \<le> 7 + 3 \<and>
   ensurePeers (testWorld\<lparr>NumPeers := (7, 2, 3)\<rparr>) testReactor = []"
  using ensurePeers_enough_peers [of "testWorld\<lparr>NumPeers := (7, 2, 3)\<rparr>" 7 2 3 testReactor]
  by simp


text \<open>
  C6. In an execution of ensurePeers with a deficit \<open>d > 0\<close>, the draws of the
  execution are those of the selection loop and the dials are those of its target map.
  The loop makes at most \<open>3 * d\<close> draws and picks at most \<open>d\<close> addresses; the picked
  addresses have different IDs; each was the answer to one of the draws, at a moment
  when the switch reported its ID neither as dialing nor as connected. Every draw, also
  a rejected one, is counted: the loop stops only when the draws are \<open>3 * d\<close> or the
  picked addresses are \<open>d\<close>.
\<close>

theorem ensurePeers_selection_bounded:
  assumes "NumPeers w = (out, inb, dl)"
    and "d = minNumOutboundPeers - (int out + int dl)"
    and "0 < d"
    and "selectToDial w (int out) d = (toDial, picks)"
  shows "filter isPickAddress (ensurePeers w r) = picks \<and>
         filter isDial (ensurePeers w r) =
           map (\<lambda>(k, item). GoDialPeerWithAddress item False) toDial \<and>
         int (length picks) \<le> 3 * d \<and>
         int (length toDial) \<le> d \<and>
         distinct (map (\<lambda>(k, item). ID item) toDial) \<and>
         (\<forall>(k, item) \<in> set toDial.
            \<exists>j < length picks. PickAddress w j (newBias (int out)) = Some item \<and>
               \<not> IsDialing w j (ID item) \<and> \<not> PeersHas w j (ID item)) \<and>
         length toDial \<le> length picks \<and>
         (int (length picks) = 3 * d \<or> int (length toDial) = d)"
proof -
  have pos: "0 < minNumOutboundPeers - (int out + int dl)" using assms(2,3) by simp
  have sel: "selectToDial w (int out) (minNumOutboundPeers - (int out + int dl)) = (toDial, picks)"
    using assms(2,4) by simp
  have sel': "selectToDial w (int out) d = (toDial, picks)" by (rule assms(4))
  have at: "\<forall>p \<in> set toDial. pickedAt w (newBias (int out)) (length picks) p"
    by (rule selectToDial_props(5) [OF assms(3) sel'])
  have keys: "map (\<lambda>(k, item). ID item) toDial = map fst toDial"
    using at by (induction toDial) (auto simp: pickedAt_def)
  have f1: "filter isPickAddress (ensurePeers w r) = picks"
    by (rule ensurePeers_picks(1) [OF assms(1) pos sel])
  have f2: "filter isDial (ensurePeers w r) =
           map (\<lambda>(k, item). GoDialPeerWithAddress item False) toDial"
    by (rule ensurePeers_picks(2) [OF assms(1) pos sel])
  have f3: "int (length picks) \<le> 3 * d" by (rule selectToDial_props(1) [OF assms(3) sel'])
  have f4: "int (length toDial) \<le> d" by (rule selectToDial_props(2) [OF assms(3) sel'])
  have f5: "distinct (map (\<lambda>(k, item). ID item) toDial)"
    unfolding keys by (rule selectToDial_props(4) [OF assms(3) sel'])
  have f6: "\<forall>(k, item) \<in> set toDial.
            \<exists>j < length picks. PickAddress w j (newBias (int out)) = Some item \<and>
               \<not> IsDialing w j (ID item) \<and> \<not> PeersHas w j (ID item)"
  proof -
    have "\<exists>j < length picks. PickAddress w j (newBias (int out)) = Some item \<and>
               \<not> IsDialing w j (ID item) \<and> \<not> PeersHas w j (ID item)"
      if "(k, item) \<in> set toDial" for k item
    proof -
      from at that have pa: "pickedAt w (newBias (int out)) (length picks) (k, item)"
        by (rule bspec)
      then have "k = ID item" by (simp add: pickedAt_def)
      with pa show ?thesis by (simp add: pickedAt_def)
    qed
    then show ?thesis by auto
  qed
  have f7: "length toDial \<le> length picks" by (rule selectToDial_props(3) [OF assms(3) sel'])
  have f8: "int (length picks) = 3 * d \<or> int (length toDial) = d"
    by (rule selectToDial_props(7) [OF assms(3) sel'])
  show ?thesis using f1 f2 f3 f4 f5 f6 f7 f8 by (intro conjI) assumption+
qed

lemma selectToDial_testWorld:
  "selectToDial testWorld 8 2 = ([(''bb'', addrB)], [PickAddressCall 90, PickAddressCall 90, PickAddressCall 90,
      PickAddressCall 90, PickAddressCall 90, PickAddressCall 90])"
  by (simp add: selectToDial_def newBias_def MinInt_def Let_def pickLoop.simps testWorld_def
        addrA_def addrB_def)

theorem ensurePeers_selection_bounded_witness:
  "NumPeers testWorld = (8, 1, 0) \<and> (2::int) = minNumOutboundPeers - (int 8 + int 0) \<and>
   (0::int) < 2 \<and>
   selectToDial testWorld (int 8) 2 = ([(''bb'', addrB)], [PickAddressCall 90, PickAddressCall 90, PickAddressCall 90,
      PickAddressCall 90, PickAddressCall 90, PickAddressCall 90]) \<and>
   filter isPickAddress (ensurePeers testWorld testReactor) = [PickAddressCall 90, PickAddressCall 90, PickAddressCall 90,
      PickAddressCall 90, PickAddressCall 90, PickAddressCall 90] \<and>
   filter isDial (ensurePeers testWorld testReactor) = [GoDialPeerWithAddress addrB False]"
proof -
  have h1: "NumPeers testWorld = (8, 1, 0)" by (simp add: testWorld_def)
  have h2: "(2::int) = minNumOutboundPeers - (int 8 + int 0)" by (simp add: minNumOutboundPeers_def)
  have h3: "(0::int) < 2" by simp
  have h4: "selectToDial testWorld (int 8) 2 = ([(''bb'', addrB)], [PickAddressCall 90, PickAddressCall 90, PickAddressCall 90,
      PickAddressCall 90, PickAddressCall 90, PickAddressCall 90])"
    using selectToDial_testWorld by simp
  from ensurePeers_selection_bounded [OF h1 h2 h3 h4, of testReactor]
  have "filter isPickAddress (ensurePeers testWorld testReactor) = [PickAddressCall 90, PickAddressCall 90, PickAddressCall 90,
      PickAddressCall 90, PickAddressCall 90, PickAddressCall 90]"
    and "filter isDial (ensurePeers testWorld testReactor) = [GoDialPeerWithAddress addrB False]"
    by simp_all
  with h1 h2 h3 h4 show ?thesis by (intro conjI) assumption+
qed

text \<open>
  C7. One execution of ensurePeers dials the seeds exactly once, with the configured list,
  when there is no outbound peer, no inbound peer, no dial in progress and the target map
  of this execution is empty; in every other case it does not dial the seeds.
\<close>

theorem ensurePeers_seeds_iff_isolated:
  assumes "NumPeers w = (out, inb, dl)"
  shows "filter isDialPeersAsync (ensurePeers w r) =
           (if out = 0 \<and> inb = 0 \<and> dl = 0 \<and>
               fst (selectToDial w (int out) (minNumOutboundPeers - (int out + int dl))) = []
            then [DialPeersAsyncCall (Seeds (config r)) False] else [])"
proof (cases "0 < minNumOutboundPeers - (int out + int dl)")
  case False
  then have "ensurePeers w r = []" using ensurePeers_enough [OF assms] by simp
  moreover have "\<not> (out = 0 \<and> dl = 0)" using False by (auto simp: minNumOutboundPeers_def)
  ultimately show ?thesis by auto
next
  case True
  obtain toDial picks where
    sel: "selectToDial w (int out) (minNumOutboundPeers - (int out + int dl)) = (toDial, picks)"
    by (cases "selectToDial w (int out) (minNumOutboundPeers - (int out + int dl))")
  show ?thesis using ensurePeers_picks(3) [OF assms True sel, of r] sel by simp
qed

lemma selectToDial_isolatedWorld:
  "fst (selectToDial isolatedWorld 0 10) = []"
  by (simp add: selectToDial_def newBias_def MinInt_def Let_def pickLoop.simps isolatedWorld_def)

theorem ensurePeers_seeds_iff_isolated_witness:
  "NumPeers isolatedWorld = (0, 0, 0) \<and>
   filter isDialPeersAsync (ensurePeers isolatedWorld testReactor) =
     [DialPeersAsyncCall [''seed1:46656'', ''seed2:46656''] False] \<and>
   NumPeers testWorld = (8, 1, 0) \<and>
   filter isDialPeersAsync (ensurePeers testWorld testReactor) = []"
proof -
  have h1: "NumPeers isolatedWorld = (0, 0, 0)" by (simp add: isolatedWorld_def)
  have h2: "NumPeers testWorld = (8, 1, 0)" by (simp add: testWorld_def)
  have a: "filter isDialPeersAsync (ensurePeers isolatedWorld testReactor) =
     [DialPeersAsyncCall [''seed1:46656'', ''seed2:46656''] False]"
    using ensurePeers_seeds_iff_isolated [OF h1, of testReactor] selectToDial_isolatedWorld
    by (simp add: minNumOutboundPeers_def testReactor_def NewPEXReactor_def)
  have b: "filter isDialPeersAsync (ensurePeers testWorld testReactor) = []"
    using ensurePeers_seeds_iff_isolated [OF h2, of testReactor] by simp
  from h1 a h2 b show ?thesis by (intro conjI) assumption+
qed

text \<open>
  C8. AddPeer with an outbound peer sends one request to this peer when the address book
  needs more addresses and does nothing when it does not; AddPeer with an inbound peer
  calls AddAddress with the peer's own address as the address and as the source.
\<close>

theorem AddPeer_outbound_inbound:
  "(IsOutbound p \<and> NeedMoreAddrs w \<longrightarrow>
      AddPeer w r p = [SendCall p PexChannel pexRequestMessage]) \<and>
   (IsOutbound p \<and> \<not> NeedMoreAddrs w \<longrightarrow> AddPeer w r p = []) \<and>
   (\<not> IsOutbound p \<longrightarrow>
      AddPeer w r p = [AddAddressCall (NodeInfoNetAddress p) (NodeInfoNetAddress p)])"
  by (simp add: AddPeer_def RequestPEX_def Let_def)

theorem AddPeer_outbound_inbound_witness:
  "IsOutbound outPeer \<and> NeedMoreAddrs testWorld \<and>
   AddPeer testWorld testReactor outPeer = [SendCall outPeer PexChannel pexRequestMessage] \<and>
   \<not> NeedMoreAddrs (testWorld\<lparr>NeedMoreAddrs := False\<rparr>) \<and>
   AddPeer (testWorld\<lparr>NeedMoreAddrs := False\<rparr>) testReactor outPeer = [] \<and>
   \<not> IsOutbound inPeer \<and>
   AddPeer testWorld testReactor inPeer = [AddAddressCall addrS addrS]"
  using AddPeer_outbound_inbound [of outPeer testWorld testReactor]
        AddPeer_outbound_inbound [of outPeer "testWorld\<lparr>NeedMoreAddrs := False\<rparr>" testReactor]
        AddPeer_outbound_inbound [of inPeer testWorld testReactor]
  by (simp add: outPeer_def inPeer_def testWorld_def)

text \<open>
  C9. After the start of the base reactor has succeeded: when the start of the address
  book fails with an error that is not "already started", OnStart returns this error and
  starts neither loop; when it succeeds or fails with "already started", OnStart starts
  the loop of ensurePeers and the flush loop and returns no error.
\<close>

theorem OnStart_book_start:
  assumes "BaseReactorOnStart w = None"
  shows "(\<forall>e. bookStart w = Some e \<and> e \<noteq> ErrAlreadyStarted \<longrightarrow>
            fst (OnStart w r) = Some e \<and> filter isGo (snd (OnStart w r)) = []) \<and>
         (bookStart w = None \<or> bookStart w = Some ErrAlreadyStarted \<longrightarrow>
            fst (OnStart w r) = None \<and>
            filter isGo (snd (OnStart w r)) =
              [GoCall ensurePeersRoutine, GoCall flushMsgCountByPeerRoutine])"
  using assms by (auto simp: OnStart_def Let_def)

theorem OnStart_book_start_witness:
  "BaseReactorOnStart testWorld = None \<and> bookStart testWorld = None \<and>
   OnStart testWorld testReactor =
     (None, [BookStartCall, GoCall ensurePeersRoutine, GoCall flushMsgCountByPeerRoutine]) \<and>
   BaseReactorOnStart isolatedWorld = None \<and> bookStart isolatedWorld = Some ErrAlreadyStarted \<and>
   fst (OnStart isolatedWorld testReactor) = None \<and>
   filter isGo (snd (OnStart isolatedWorld testReactor)) =
     [GoCall ensurePeersRoutine, GoCall flushMsgCountByPeerRoutine] \<and>
   bookStart (testWorld\<lparr>bookStart := Some (ErrOther ''db'')\<rparr>) = Some (ErrOther ''db'') \<and>
   ErrOther ''db'' \<noteq> ErrAlreadyStarted \<and>
   fst (OnStart (testWorld\<lparr>bookStart := Some (ErrOther ''db'')\<rparr>) testReactor) =
     Some (ErrOther ''db'') \<and>
   filter isGo (snd (OnStart (testWorld\<lparr>bookStart := Some (ErrOther ''db'')\<rparr>) testReactor)) = []"
proof -
  have h1: "BaseReactorOnStart testWorld = None" by (simp add: testWorld_def)
  have h2: "BaseReactorOnStart isolatedWorld = None" by (simp add: isolatedWorld_def)
  have h3: "BaseReactorOnStart (testWorld\<lparr>bookStart := Some (ErrOther ''db'')\<rparr>) = None"
    by (simp add: testWorld_def)
  have b1: "bookStart testWorld = None" by (simp add: testWorld_def)
  have b2: "bookStart isolatedWorld = Some ErrAlreadyStarted" by (simp add: isolatedWorld_def)
  have a: "OnStart testWorld testReactor =
     (None, [BookStartCall, GoCall ensurePeersRoutine, GoCall flushMsgCountByPeerRoutine])"
    using OnStart_book_start [OF h1, of testReactor] b1 by (simp add: OnStart_def h1)
  have b: "fst (OnStart isolatedWorld testReactor) = None \<and>
   filter isGo (snd (OnStart isolatedWorld testReactor)) =
     [GoCall ensurePeersRoutine, GoCall flushMsgCountByPeerRoutine]"
    using OnStart_book_start [OF h2, of testReactor] b2 by simp
  have c: "fst (OnStart (testWorld\<lparr>bookStart := Some (ErrOther ''db'')\<rparr>) testReactor) =
     Some (ErrOther ''db'') \<and>
   filter isGo (snd (OnStart (testWorld\<lparr>bookStart := Some (ErrOther ''db'')\<rparr>) testReactor)) = []"
    using OnStart_book_start [OF h3, of testReactor] by simp
  show ?thesis using h1 b1 a h2 b2 b c by simp
qed

text \<open>
  C10. The claim: every call of Receive raises the sender's count by exactly one, so
  that every message uses up the sender's budget. The count is a uint16 and
  \<open>count++\<close> wraps: after 65535 messages of one peer in a window the count is 65535,
  the next message sets it to 0, and the message after that is answered again although
  the maximum is 1000.
\<close>

theorem Receive_counter_wraps:
  "msgCount (receiveTimes 65535 testWorld testReactor inPeer [0x01]) ''cc'' = 65535 \<and>
   msgCount (fst (snd (Receive testWorld (receiveTimes 65535 testWorld testReactor inPeer [0x01])
       PexChannel inPeer [0x01]))) ''cc'' = 0 \<and>
   snd (snd (Receive testWorld (receiveTimes 65536 testWorld testReactor inPeer [0x01])
       PexChannel inPeer [0x01])) = [SendCall inPeer PexChannel (pexAddrsMessage [Some addrB])]"
proof -
  have id: "ID (NodeInfoNetAddress inPeer) = ''cc''" by (simp add: inPeer_def addrS_def)
  have z: "msgCount testReactor ''cc'' = 0"
    by (simp add: testReactor_def NewPEXReactor_def msgCount_def)
  have mx: "maxMsgCountByPeer testReactor = 1000"
    by (simp add: testReactor_def NewPEXReactor_def defaultMaxMsgCountByPeer_def)
  have a: "msgCount (receiveTimes 65535 testWorld testReactor inPeer [0x01]) ''cc'' = 65535"
    using receiveTimes_msgCount [of 65535 testWorld testReactor inPeer "[0x01]"]
    by (simp add: id z)
  have b: "msgCount (fst (snd (Receive testWorld
      (receiveTimes 65535 testWorld testReactor inPeer [0x01]) PexChannel inPeer [0x01]))) ''cc'' = 0"
    by (simp add: Receive_state msgCount_Increment id a)
  have c0: "msgCount (receiveTimes 65536 testWorld testReactor inPeer [0x01]) ''cc'' = 0"
    using receiveTimes_msgCount [of 65536 testWorld testReactor inPeer "[0x01]"]
    by (simp add: id z)
  have lt: "msgCount (receiveTimes 65536 testWorld testReactor inPeer [0x01])
              (ID (NodeInfoNetAddress inPeer)) + 1
            < maxMsgCountByPeer (receiveTimes 65536 testWorld testReactor inPeer [0x01])"
    by (simp add: id c0 receiveTimes_max mx)
  have c: "snd (snd (Receive testWorld (receiveTimes 65536 testWorld testReactor inPeer [0x01])
       PexChannel inPeer [0x01])) = [SendCall inPeer PexChannel (pexAddrsMessage [Some addrB])]"
    using Receive_accepted [OF lt, of testWorld PexChannel "[0x01]"]
    by (simp add: DecodeMessage_def testWorld_def testDecoder_def SendAddrs_def)
  from a b c show ?thesis by (intro conjI) assumption+
qed

end
